theory Spec2Isabelle
  imports Complex_Main
begin

section \<open>JavaScript values\<close>

text \<open>
  The bridge and the React listener exchange untyped values (\<open>any\<close>) over the
  BroadcastChannel: primitives, arrays and plain objects. A finite number is a rational
  (every finite double is one); NaN and the two infinities are values of their own. An
  object is the list of its own properties in order.
\<close>

datatype jsval =
    JUndefined
  | JNull
  | JBool bool
  | JNum rat
  | JNaN
  | JInfinity
  | JNegInfinity
  | JStr string
  | JArr "jsval list"
  | JObj "(string \<times> jsval) list"

text \<open>Truthiness, as used by \<open>!data\<close>, \<open>a && b\<close> and \<open>a || b\<close>.\<close>

fun truthy :: "jsval \<Rightarrow> bool" where
  "truthy JUndefined = False"
| "truthy JNull = False"
| "truthy (JBool b) = b"
| "truthy (JNum n) = (n \<noteq> 0)"
| "truthy JNaN = False"
| "truthy JInfinity = True"
| "truthy JNegInfinity = True"
| "truthy (JStr s) = (s \<noteq> [])"
| "truthy (JArr xs) = True"
| "truthy (JObj ps) = True"

text \<open>
  Reading the property \<open>type\<close> or \<open>payload\<close> of a message: a missing property, and any
  property of these names read from a primitive or an array, is \<open>undefined\<close>. (Reading
  from \<open>null\<close> or \<open>undefined\<close> would throw; both readers test the message for
  truthiness first.)
\<close>

fun getProp :: "jsval \<Rightarrow> string \<Rightarrow> jsval" where
  "getProp (JObj ps) k = (case map_of ps k of None \<Rightarrow> JUndefined | Some v \<Rightarrow> v)"
| "getProp v k = JUndefined"

text \<open>Decimal digits of a number, as a template literal prints it.\<close>

fun digits :: "nat \<Rightarrow> string" where
  "digits n =
     (if n < 10 then [''0123456789'' ! n]
      else digits (n div 10) @ [''0123456789'' ! (n mod 10)])"

declare digits.simps [simp del]

definition numToString :: "int \<Rightarrow> string" where
  "numToString i = (if i < 0 then ''-'' @ digits (nat (- i)) else digits (nat i))"

text \<open>
  The object spread \<open>{...item}\<close>: a fresh object with the own enumerable properties of
  \<open>item\<close>. An object gives its properties, an array and a string give their indexed
  elements, every other primitive gives none.
\<close>

fun spread :: "jsval \<Rightarrow> (string \<times> jsval) list" where
  "spread (JObj ps) = ps"
| "spread (JArr xs) = zip (map digits [0..<length xs]) xs"
| "spread (JStr s) = zip (map digits [0..<length s]) (map (\<lambda>c. JStr [c]) s)"
| "spread v = []"

text \<open>
  ToLength, through which \<open>Array.from({length: count}, f)\<close> reads the length:
  \<open>undefined\<close> and NaN give 0, \<open>null\<close> 0, a boolean 0 or 1; a number is rounded
  towards zero, is 0 when negative, and is at most \<open>2^53 - 1\<close>, which is also what
  \<open>Infinity\<close> gives. Strings, arrays and objects go through the runtime's
  string-to-number grammar first, which is not embedded here: the parameter \<open>toNum\<close>
  is the integer it gives for them (any integer from \<open>2^53 - 1\<close> on standing for
  \<open>Infinity\<close>).
\<close>

fun ToLength :: "(jsval \<Rightarrow> int) \<Rightarrow> jsval \<Rightarrow> nat" where
  "ToLength toNum JUndefined = 0"
| "ToLength toNum JNull = 0"
| "ToLength toNum (JBool b) = (if b then 1 else 0)"
| "ToLength toNum (JNum n) = nat (min \<lfloor>n\<rfloor> 9007199254740991)"
| "ToLength toNum JNaN = 0"
| "ToLength toNum JInfinity = 9007199254740991"
| "ToLength toNum JNegInfinity = 0"
| "ToLength toNum v = nat (min (toNum v) 9007199254740991)"

text \<open>
  Exceptions are values: a call that can throw returns the state it leaves behind and
  either the exception or what it returns.
\<close>

datatype js_error = RangeError

text \<open>
  \<open>Array.from({length: len}, f)\<close>, for the length ToLength has given: the array
  is made by \<open>new Array(len)\<close>, which throws a RangeError when \<open>len\<close> is above
  \<open>2^32 - 1\<close>; otherwise \<open>f\<close> is called on the indices 0 to \<open>len - 1\<close>.
\<close>

definition maxArrayLength :: nat where
  "maxArrayLength = 4294967295"

definition Array_from :: "nat \<Rightarrow> (nat \<Rightarrow> 'a) \<Rightarrow> js_error + 'a list" where
  "Array_from len f = (if maxArrayLength < len then Inl RangeError else Inr (map f [0..<len]))"

section \<open>Observables\<close>

text \<open>
  An observable is modelled by the notifications it delivers to a subscriber, in order;
  \<open>delay\<close> postpones them and changes nothing else, so time is left out.
\<close>

datatype 'a notification = Next 'a | Error string

type_synonym 'a Observable = "'a notification list"

definition rx_of :: "'a \<Rightarrow> 'a Observable" where
  "rx_of x = [Next x]"

definition rx_delay :: "nat \<Rightarrow> 'a Observable \<Rightarrow> 'a Observable" where
  "rx_delay ms obs = obs"

text \<open>
  \<open>obs.subscribe({next, error})\<close>: the observer is run on each notification; an error
  ends the subscription. The result collects what the observer posts.
\<close>

fun subscribe :: "'a Observable \<Rightarrow> ('a notification \<Rightarrow> 'm list) \<Rightarrow> 'm list" where
  "subscribe [] observer = []"
| "subscribe (Next x # rest) observer = observer (Next x) @ subscribe rest observer"
| "subscribe (Error e # rest) observer = observer (Error e)"

section \<open>DataService\<close>

record DataItem =
  item_id :: int
  name :: string
  description :: string

record DataService =
  sampleData :: "DataItem list"

text \<open>The field initialiser of \<open>sampleData\<close>: the state of a new DataService.\<close>

definition initialDataService :: DataService where
  "initialDataService = \<lparr>sampleData = [
     \<lparr>item_id = 1, name = ''Item 1'', description = ''Description for item 1''\<rparr>,
     \<lparr>item_id = 2, name = ''Item 2'', description = ''Description for item 2''\<rparr>,
     \<lparr>item_id = 3, name = ''Item 3'', description = ''Description for item 3''\<rparr>,
     \<lparr>item_id = 4, name = ''Item 4'', description = ''Description for item 4''\<rparr>,
     \<lparr>item_id = 5, name = ''Item 5'', description = ''Description for item 5''\<rparr>,
     \<lparr>item_id = 6, name = ''Item 6'', description = ''Description for item 6''\<rparr>,
     \<lparr>item_id = 7, name = ''Item 7'', description = ''Description for item 7''\<rparr>]\<rparr>"

text \<open>
  Every method returns the new state of the service and the observable it hands back,
  which carries a copy of the list. \<open>addMoreData\<close> throws when \<open>Array.from\<close> does,
  before it has assigned to \<open>sampleData\<close>. (Lists and memory have no bound in the
  model, where an array holds at most \<open>2^32 - 1\<close> items; the properties of
  \<open>addMoreData\<close> are stated where the new list fits an array.)
\<close>

definition getSampleData :: "DataService \<Rightarrow> DataService \<times> DataItem list Observable" where
  "getSampleData ds = (ds, rx_delay 1000 (rx_of (sampleData ds)))"

definition addCustomItem ::
  "string \<Rightarrow> string \<Rightarrow> DataService \<Rightarrow> DataService \<times> DataItem list Observable" where
  "addCustomItem nm descr ds =
     (let newId = int (length (sampleData ds)) + 1;
          newItem = \<lparr>item_id = newId, name = nm, description = descr\<rparr>;
          ds' = ds\<lparr>sampleData := sampleData ds @ [newItem]\<rparr>
      in (ds', rx_delay 500 (rx_of (sampleData ds'))))"

definition generatedItem :: "DataService \<Rightarrow> nat \<Rightarrow> DataItem" where
  "generatedItem ds index =
     (let newId = int (length (sampleData ds)) + int index + 1
      in \<lparr>item_id = newId,
          name = ''Item '' @ numToString newId,
          description = ''Description for item '' @ numToString newId\<rparr>)"

definition addMoreData ::
  "(jsval \<Rightarrow> int) \<Rightarrow> jsval \<Rightarrow> DataService
     \<Rightarrow> DataService \<times> (js_error + DataItem list Observable)" where
  "addMoreData toNum count ds =
     (let count' = (if count = JUndefined then JNum 5 else count)
      in case Array_from (ToLength toNum count') (generatedItem ds) of
           Inl e \<Rightarrow> (ds, Inl e)
         | Inr newItems \<Rightarrow>
             (let ds' = ds\<lparr>sampleData := sampleData ds @ newItems\<rparr>
              in (ds', Inr (rx_delay 500 (rx_of (sampleData ds'))))))"

definition resetData :: "DataService \<Rightarrow> DataService \<times> DataItem list Observable" where
  "resetData ds =
     (let ds' = ds\<lparr>sampleData := [
        \<lparr>item_id = 1, name = ''Item 1'', description = ''Description for item 1''\<rparr>,
        \<lparr>item_id = 2, name = ''Item 2'', description = ''Description for item 2''\<rparr>,
        \<lparr>item_id = 3, name = ''Item 3'', description = ''Description for item 3''\<rparr>,
        \<lparr>item_id = 4, name = ''Item 4'', description = ''Description for item 4''\<rparr>,
        \<lparr>item_id = 5, name = ''Item 5'', description = ''Description for item 5''\<rparr>,
        \<lparr>item_id = 6, name = ''Item 6'', description = ''Description for item 6''\<rparr>,
        \<lparr>item_id = 7, name = ''Item 7'', description = ''Description for item 7''\<rparr>]\<rparr>
      in (ds', rx_delay 500 (rx_of (sampleData ds'))))"

text \<open>
  The calls a client can make on the service, and the state after a sequence of them
  on a new service (a call that throws leaves the state as it was, and the client goes
  on).
\<close>

datatype call =
    GetSampleData
  | AddCustomItem string string
  | AddMoreData jsval
  | ResetData

definition returned :: "'s \<times> 'a \<Rightarrow> 's \<times> (js_error + 'a)" where
  "returned r = (fst r, Inr (snd r))"

fun perform ::
  "(jsval \<Rightarrow> int) \<Rightarrow> call \<Rightarrow> DataService
     \<Rightarrow> DataService \<times> (js_error + DataItem list Observable)" where
  "perform toNum GetSampleData ds = returned (getSampleData ds)"
| "perform toNum (AddCustomItem nm descr) ds = returned (addCustomItem nm descr ds)"
| "perform toNum (AddMoreData count) ds = addMoreData toNum count ds"
| "perform toNum ResetData ds = returned (resetData ds)"

definition after :: "(jsval \<Rightarrow> int) \<Rightarrow> call list \<Rightarrow> DataService" where
  "after toNum calls = foldl (\<lambda>ds c. fst (perform toNum c ds)) initialDataService calls"

text \<open>
  The spec's wording of the id rule, for comparison with the length-based rule of the
  code: the ids of a list are exactly 1 to its length, in order; the greatest id of a
  list; an item whose name and description are made from its id.
\<close>

definition ids_contiguous :: "DataItem list \<Rightarrow> bool" where
  "ids_contiguous xs = (map item_id xs = [1..int (length xs)])"

definition maxId :: "DataItem list \<Rightarrow> int" where
  "maxId xs = Max (set (map item_id xs))"

definition synthesized :: "DataItem \<Rightarrow> bool" where
  "synthesized it =
     (name it = ''Item '' @ numToString (item_id it)
      \<and> description it = ''Description for item '' @ numToString (item_id it))"

section \<open>The store\<close>

record AppState =
  isLoaded :: bool
  loading :: bool
  error :: "string option"
  data :: "jsval list"

definition initialAppState :: AppState where
  "initialAppState = \<lparr>isLoaded = False, loading = False, error = None, data = []\<rparr>"

definition selectAppLoading :: "AppState \<Rightarrow> bool" where
  "selectAppLoading state = loading state"

definition selectAppData :: "AppState \<Rightarrow> jsval list" where
  "selectAppData state = data state"

text \<open>
  \<open>store.select(selector)\<close> as seen by one subscriber: \<open>states\<close> are the state of the
  store when the subscription starts, followed by every later state until the
  subscription ends, and the subscriber is handed the selected part of each. (NgRx itself
  drops a value that is the very same reference as the one before. The pipes below drop
  every such value too, so this changes nothing in what is posted.)
\<close>

definition select :: "(AppState \<Rightarrow> 'a) \<Rightarrow> AppState list \<Rightarrow> 'a list" where
  "select selector states = map selector states"

text \<open>
  The operator \<open>distinctUntilChanged(comparator)\<close>: the first value passes; a later value
  passes unless the comparator holds of the last value that passed and it.
\<close>

fun distinctFrom :: "('a \<Rightarrow> 'a \<Rightarrow> bool) \<Rightarrow> 'a \<Rightarrow> 'a list \<Rightarrow> 'a list" where
  "distinctFrom comparator previous [] = []"
| "distinctFrom comparator previous (current # later) =
     (if comparator previous current then distinctFrom comparator previous later
      else current # distinctFrom comparator current later)"

fun distinctUntilChanged :: "('a \<Rightarrow> 'a \<Rightarrow> bool) \<Rightarrow> 'a list \<Rightarrow> 'a list" where
  "distinctUntilChanged comparator [] = []"
| "distinctUntilChanged comparator (x # later) = x # distinctFrom comparator x later"

section \<open>StoreBridgeService\<close>

definition DATA_EVENT :: string where
  "DATA_EVENT = ''APP_STORE_DATA_UPDATE''"

definition LOADING_EVENT :: string where
  "LOADING_EVENT = ''APP_STORE_LOADING_UPDATE''"

definition REQUEST_DATA_EVENT :: string where
  "REQUEST_DATA_EVENT = ''APP_STORE_REQUEST_DATA''"

definition REQUEST_LOADING_EVENT :: string where
  "REQUEST_LOADING_EVENT = ''APP_STORE_REQUEST_LOADING''"

definition ADD_MORE_DATA_EVENT :: string where
  "ADD_MORE_DATA_EVENT = ''APP_STORE_ADD_MORE_DATA''"

definition RESET_DATA_EVENT :: string where
  "RESET_DATA_EVENT = ''APP_STORE_RESET_DATA''"

text \<open>A DataItem seen as an untyped value, as it is when passed for \<open>any\<close>.\<close>

definition itemObject :: "DataItem \<Rightarrow> jsval" where
  "itemObject it =
     JObj [(''id'', JNum (of_int (item_id it))), (''name'', JStr (name it)),
           (''description'', JStr (description it))]"

text \<open>
  \<open>dispatchStoreEvent\<close> posts one message on the channel. The functions of the bridge
  return the list of the messages they post, in order.
\<close>

definition dispatchStoreEvent :: "string \<Rightarrow> jsval \<Rightarrow> jsval" where
  "dispatchStoreEvent eventType payload = JObj [(''type'', JStr eventType), (''payload'', payload)]"

definition sanitizeData :: "jsval \<Rightarrow> jsval" where
  "sanitizeData d =
     (if \<not> truthy d then JArr []
      else case d of
        JArr items \<Rightarrow> JArr (map (\<lambda>item. JObj (spread item)) items)
      | _ \<Rightarrow> d)"

text \<open>
  \<open>sendCurrentData\<close> subscribes and unsubscribes at once: the subscriber sees the
  current state of the store and no later one. (Its pipe compares by reference; with one
  value delivered the comparator is never called.)
\<close>

definition sendCurrentData :: "AppState \<Rightarrow> jsval list" where
  "sendCurrentData state =
     map (\<lambda>d. dispatchStoreEvent DATA_EVENT (sanitizeData (JArr d)))
       (distinctUntilChanged (=) (select selectAppData [state]))"

definition sendCurrentLoadingState :: "AppState \<Rightarrow> jsval list" where
  "sendCurrentLoadingState state =
     map (\<lambda>l. dispatchStoreEvent LOADING_EVENT (JBool l)) (select selectAppLoading [state])"

text \<open>
  The two subscriptions of \<open>startBroadcastingStoreUpdates\<close>: what each posts while it
  lives, for the states the store goes through in that time. \<open>JSON.stringify\<close> is the
  runtime's; it is the parameter \<open>stringify\<close>, and nothing below depends on what it
  computes.
\<close>

definition dataUpdatesFor :: "(jsval \<Rightarrow> 'k) \<Rightarrow> AppState list \<Rightarrow> jsval list list" where
  "dataUpdatesFor stringify states =
     distinctUntilChanged (\<lambda>previous current. stringify (JArr previous) = stringify (JArr current))
       (select selectAppData states)"

definition dataUpdates :: "(jsval \<Rightarrow> 'k) \<Rightarrow> AppState list \<Rightarrow> jsval list" where
  "dataUpdates stringify states =
     map (\<lambda>d. dispatchStoreEvent DATA_EVENT (sanitizeData (JArr d)))
       (dataUpdatesFor stringify states)"

definition loadingUpdatesFor :: "AppState list \<Rightarrow> bool list" where
  "loadingUpdatesFor states = distinctUntilChanged (=) (select selectAppLoading states)"

definition loadingUpdates :: "AppState list \<Rightarrow> jsval list" where
  "loadingUpdates states =
     map (\<lambda>l. dispatchStoreEvent LOADING_EVENT (JBool l)) (loadingUpdatesFor states)"

text \<open>
  The state of the service: its three subscription fields (\<open>None\<close> is \<open>null\<close>) and the
  listener count. \<open>startBroadcastingStoreUpdates\<close> sets the data and the loading field to
  new subscriptions; what these post from then on is given by \<open>dataUpdates\<close> and
  \<open>loadingUpdates\<close> above.
\<close>

datatype Subscription = Subscription

record StoreBridgeService =
  dataSubscription :: "Subscription option"
  loadingSubscription :: "Subscription option"
  errorSubscription :: "Subscription option"
  activeListeners :: int

definition initialStoreBridgeService :: StoreBridgeService where
  "initialStoreBridgeService =
     \<lparr>dataSubscription = None, loadingSubscription = None, errorSubscription = None,
      activeListeners = 0\<rparr>"

definition cleanupSubscriptions :: "StoreBridgeService \<Rightarrow> StoreBridgeService" where
  "cleanupSubscriptions b =
     (let b1 = (if dataSubscription b \<noteq> None then b\<lparr>dataSubscription := None\<rparr> else b);
          b2 = (if loadingSubscription b1 \<noteq> None then b1\<lparr>loadingSubscription := None\<rparr> else b1)
      in if errorSubscription b2 \<noteq> None then b2\<lparr>errorSubscription := None\<rparr> else b2)"

definition startBroadcastingStoreUpdates :: "StoreBridgeService \<Rightarrow> StoreBridgeService" where
  "startBroadcastingStoreUpdates b =
     (cleanupSubscriptions b)
       \<lparr>dataSubscription := Some Subscription, loadingSubscription := Some Subscription\<rparr>"

definition stopBroadcastingStoreUpdates :: "StoreBridgeService \<Rightarrow> StoreBridgeService" where
  "stopBroadcastingStoreUpdates b = cleanupSubscriptions b"

definition activateBroadcasting :: "StoreBridgeService \<Rightarrow> StoreBridgeService" where
  "activateBroadcasting b =
     (let b1 = b\<lparr>activeListeners := activeListeners b + 1\<rparr>
      in if activeListeners b1 = 1 then startBroadcastingStoreUpdates b1 else b1)"

definition deactivateBroadcasting :: "StoreBridgeService \<Rightarrow> StoreBridgeService" where
  "deactivateBroadcasting b =
     (let b1 = b\<lparr>activeListeners := activeListeners b - 1\<rparr>
      in if activeListeners b1 \<le> 0
         then (stopBroadcastingStoreUpdates b1)\<lparr>activeListeners := 0\<rparr>
         else b1)"

text \<open>Broadcasting is active when the data and the loading subscription are live.\<close>

definition broadcasting :: "StoreBridgeService \<Rightarrow> bool" where
  "broadcasting b = (dataSubscription b \<noteq> None \<and> loadingSubscription b \<noteq> None)"

definition silent :: "StoreBridgeService \<Rightarrow> bool" where
  "silent b =
     (dataSubscription b = None \<and> loadingSubscription b = None \<and> errorSubscription b = None)"

datatype activation = Activate | Deactivate

fun applyActivation :: "activation \<Rightarrow> StoreBridgeService \<Rightarrow> StoreBridgeService" where
  "applyActivation Activate b = activateBroadcasting b"
| "applyActivation Deactivate b = deactivateBroadcasting b"

definition bridgeFrom :: "StoreBridgeService \<Rightarrow> activation list \<Rightarrow> StoreBridgeService" where
  "bridgeFrom b acts = foldl (\<lambda>b a. applyActivation a b) b acts"

definition bridgeAfter :: "activation list \<Rightarrow> StoreBridgeService" where
  "bridgeAfter acts = bridgeFrom initialStoreBridgeService acts"

text \<open>The invariant of the counter: the count is not negative and tells which fields are set.\<close>

definition counted :: "StoreBridgeService \<Rightarrow> bool" where
  "counted b =
     (0 \<le> activeListeners b
      \<and> (dataSubscription b \<noteq> None) = (0 < activeListeners b)
      \<and> (loadingSubscription b \<noteq> None) = (0 < activeListeners b)
      \<and> errorSubscription b = None)"

text \<open>
  The observers of \<open>handleAddMoreData\<close> and \<open>handleResetData\<close>: on a value, the data
  message and then the loading message; on an error (which is logged), the loading message
  alone. When \<open>addMoreData\<close> throws, \<open>handleAddMoreData\<close> has no observable to
  subscribe to: the exception leaves the handler and nothing is posted.
\<close>

fun addMoreDataObserver :: "DataItem list notification \<Rightarrow> jsval list" where
  "addMoreDataObserver (Next d) =
     [dispatchStoreEvent DATA_EVENT (sanitizeData (JArr (map itemObject d))),
      dispatchStoreEvent LOADING_EVENT (JBool False)]"
| "addMoreDataObserver (Error e) = [dispatchStoreEvent LOADING_EVENT (JBool False)]"

fun resetDataObserver :: "DataItem list notification \<Rightarrow> jsval list" where
  "resetDataObserver (Next d) =
     [dispatchStoreEvent DATA_EVENT (sanitizeData (JArr (map itemObject d))),
      dispatchStoreEvent LOADING_EVENT (JBool False)]"
| "resetDataObserver (Error e) = [dispatchStoreEvent LOADING_EVENT (JBool False)]"

definition handleAddMoreData ::
  "(jsval \<Rightarrow> int) \<Rightarrow> jsval \<Rightarrow> DataService \<Rightarrow> DataService \<times> (js_error + jsval list)" where
  "handleAddMoreData toNum count ds =
     (let count' = (if count = JUndefined then JNum 5 else count);
          (ds', result) = addMoreData toNum count' ds
      in case result of
           Inl e \<Rightarrow> (ds', Inl e)
         | Inr obs \<Rightarrow> (ds', Inr (subscribe obs addMoreDataObserver)))"

definition handleResetData :: "DataService \<Rightarrow> DataService \<times> jsval list" where
  "handleResetData ds =
     (let (ds', obs) = resetData ds in (ds', subscribe obs resetDataObserver))"

text \<open>
  The \<open>onmessage\<close> handler of \<open>setupRequestListeners\<close>, for the message \<open>event.data\<close>: four
  tests in a row, none of them an \<open>else\<close> of another. The handler reads the store and
  never writes it; it returns the state of the DataService and the messages posted. An
  exception of \<open>handleAddMoreData\<close> is not caught: it ends the handler, so the fourth
  test is not reached, and goes to the runtime, not to the channel.
\<close>

definition onmessage ::
  "(jsval \<Rightarrow> int) \<Rightarrow> jsval \<Rightarrow> AppState \<Rightarrow> DataService \<Rightarrow> DataService \<times> jsval list" where
  "onmessage toNum event_data state ds =
     (if truthy event_data \<and> truthy (getProp event_data ''type'') then
        let ty = getProp event_data ''type'';
            posted1 = (if ty = JStr REQUEST_DATA_EVENT then sendCurrentData state else []);
            posted2 = (if ty = JStr REQUEST_LOADING_EVENT then sendCurrentLoadingState state else []);
            (ds3, result3) =
              (if ty = JStr ADD_MORE_DATA_EVENT
               then handleAddMoreData toNum (getProp event_data ''payload'') ds
               else (ds, Inr []))
        in case result3 of
             Inl e \<Rightarrow> (ds3, posted1 @ posted2)
           | Inr posted3 \<Rightarrow>
               (let (ds4, posted4) =
                      (if ty = JStr RESET_DATA_EVENT then handleResetData ds3 else (ds3, []))
                in (ds4, posted1 @ posted2 @ posted3 @ posted4))
      else (ds, []))"

section \<open>The React listener\<close>

definition STORE_EVENTS_DATA :: string where
  "STORE_EVENTS_DATA = ''APP_STORE_DATA_UPDATE''"

definition STORE_EVENTS_LOADING :: string where
  "STORE_EVENTS_LOADING = ''APP_STORE_LOADING_UPDATE''"

text \<open>
  The state of the component \<open>App\<close>; its fields \<open>data\<close> and \<open>loading\<close> are named
  \<open>app_data\<close> and \<open>app_loading\<close> here, apart from those of the store.
\<close>

record App =
  app_data :: jsval
  app_loading :: jsval
  storeAvailable :: bool
  requestAttempted :: bool
  requestTimeout :: "nat option"
  addItemCount :: jsval

definition handleBroadcastMessage :: "jsval \<Rightarrow> App \<Rightarrow> App" where
  "handleBroadcastMessage event_data s =
     (if \<not> truthy event_data \<or> \<not> truthy (getProp event_data ''type'') then s
      else
        let ty = getProp event_data ''type'';
            payload = getProp event_data ''payload''
        in if ty = JStr STORE_EVENTS_DATA
           then s\<lparr>app_data := (if truthy payload then payload else JArr []),
                  storeAvailable := True\<rparr>
           else if ty = JStr STORE_EVENTS_LOADING then s\<lparr>app_loading := payload\<rparr>
           else s)"

text \<open>The message types of the protocol.\<close>

definition catalogue :: "string list" where
  "catalogue =
     [DATA_EVENT, LOADING_EVENT, REQUEST_DATA_EVENT, REQUEST_LOADING_EVENT,
      ADD_MORE_DATA_EVENT, RESET_DATA_EVENT]"

section \<open>Properties of the DataService\<close>

lemmas event_names =
  DATA_EVENT_def LOADING_EVENT_def REQUEST_DATA_EVENT_def REQUEST_LOADING_EVENT_def
  ADD_MORE_DATA_EVENT_def RESET_DATA_EVENT_def STORE_EVENTS_DATA_def STORE_EVENTS_LOADING_def

text \<open>
  C5. Whatever the state of the DataService, resetData leaves the seven baseline items
  (ids 1 to 7, the names and descriptions the service starts with) in the service and
  returns them; a second resetData gives the same state and the same result.
\<close>

theorem resetData_baseline:
  "fst (resetData ds) = initialDataService
   \<and> snd (resetData ds) = [Next (sampleData initialDataService)]
   \<and> map item_id (sampleData (fst (resetData ds))) = [1, 2, 3, 4, 5, 6, 7]
   \<and> length (sampleData (fst (resetData ds))) = 7
   \<and> resetData (fst (resetData ds)) = resetData ds
   \<and> resetData (after toNum calls) = resetData initialDataService"
  by (simp add: resetData_def initialDataService_def rx_of_def rx_delay_def Let_def)

subsection \<open>The ids of the list\<close>

lemma ids_initial: "ids_contiguous (sampleData initialDataService)"
  by (simp add: ids_contiguous_def initialDataService_def upto_rec1)

lemma map_index_upto: "map (\<lambda>i. L + int i + 1) [0..<k] = [L + 1..L + int k]"
  by (rule nth_equalityI) simp_all

lemma upto_append_next: "0 \<le> L \<Longrightarrow> [1..L] @ [L + 1..L + int k] = [1..L + int k]"
  by (rule nth_equalityI) (auto simp: nth_append)

lemma ids_append:
  assumes "ids_contiguous xs"
    and "map item_id ys = map (\<lambda>i. int (length xs) + int i + 1) [0..<length ys]"
  shows "ids_contiguous (xs @ ys)"
  using assms by (simp add: ids_contiguous_def map_index_upto upto_append_next)

lemma generated_ids:
  "map item_id (map (generatedItem ds) [0..<k])
   = map (\<lambda>i. int (length (sampleData ds)) + int i + 1) [0..<k]"
  by (simp add: generatedItem_def Let_def o_def)

lemma addMoreData_fits:
  assumes "ToLength toNum (if c = JUndefined then JNum 5 else c) \<le> maxArrayLength"
  shows "addMoreData toNum c ds =
    (ds\<lparr>sampleData := sampleData ds
        @ map (generatedItem ds) [0..<ToLength toNum (if c = JUndefined then JNum 5 else c)]\<rparr>,
     Inr [Next (sampleData ds
        @ map (generatedItem ds) [0..<ToLength toNum (if c = JUndefined then JNum 5 else c)])])"
  using assms by (simp add: addMoreData_def Array_from_def Let_def rx_of_def rx_delay_def)

lemma addMoreData_throws:
  assumes "maxArrayLength < ToLength toNum (if c = JUndefined then JNum 5 else c)"
  shows "addMoreData toNum c ds = (ds, Inl RangeError)"
  using assms by (simp add: addMoreData_def Array_from_def Let_def)

lemma addMoreData_cases:
  "addMoreData toNum c ds = (ds, Inl RangeError)
   \<or> addMoreData toNum c ds =
    (ds\<lparr>sampleData := sampleData ds
        @ map (generatedItem ds) [0..<ToLength toNum (if c = JUndefined then JNum 5 else c)]\<rparr>,
     Inr [Next (sampleData ds
        @ map (generatedItem ds) [0..<ToLength toNum (if c = JUndefined then JNum 5 else c)])])"
  using addMoreData_fits [of toNum c ds] addMoreData_throws [of toNum c ds] by fastforce

lemma ids_generated:
  assumes "ids_contiguous (sampleData ds)"
  shows "ids_contiguous (sampleData ds @ map (generatedItem ds) [0..<k])"
  using assms by (rule ids_append) (simp add: generatedItem_def Let_def o_def)

lemma ids_addMoreData:
  assumes "ids_contiguous (sampleData ds)"
  shows "ids_contiguous (sampleData (fst (addMoreData toNum c ds)))"
  using addMoreData_cases [of toNum c ds]
proof
  assume "addMoreData toNum c ds = (ds, Inl RangeError)"
  with assms show ?thesis by simp
next
  assume "addMoreData toNum c ds =
    (ds\<lparr>sampleData := sampleData ds
        @ map (generatedItem ds) [0..<ToLength toNum (if c = JUndefined then JNum 5 else c)]\<rparr>,
     Inr [Next (sampleData ds
        @ map (generatedItem ds) [0..<ToLength toNum (if c = JUndefined then JNum 5 else c)])])"
  then show ?thesis
    using ids_generated [OF assms] by simp
qed

lemma ids_addCustomItem:
  "ids_contiguous (sampleData ds) \<Longrightarrow> ids_contiguous (sampleData (fst (addCustomItem nm descr ds)))"
  by (simp add: addCustomItem_def Let_def ids_append)

lemma ids_resetData: "ids_contiguous (sampleData (fst (resetData ds)))"
  by (simp add: resetData_def Let_def ids_contiguous_def upto_rec1)

lemma ids_perform:
  "ids_contiguous (sampleData ds) \<Longrightarrow> ids_contiguous (sampleData (fst (perform toNum c ds)))"
  by (cases c)
    (simp_all add: ids_addMoreData ids_addCustomItem ids_resetData getSampleData_def returned_def)

lemma ids_foldl:
  "ids_contiguous (sampleData ds) \<Longrightarrow>
   ids_contiguous (sampleData (foldl (\<lambda>ds c. fst (perform toNum c ds)) ds calls))"
  by (induction calls arbitrary: ds) (simp_all add: ids_perform)

lemma ids_after: "ids_contiguous (sampleData (after toNum calls))"
  unfolding after_def by (rule ids_foldl [OF ids_initial])

lemma length_perform:
  assumes "7 \<le> length (sampleData ds)"
  shows "7 \<le> length (sampleData (fst (perform toNum c ds)))"
proof (cases c)
  case (AddMoreData n)
  then show ?thesis
    using assms addMoreData_cases [of toNum n ds] by auto
qed (use assms in \<open>simp_all add: getSampleData_def addCustomItem_def resetData_def Let_def
    returned_def\<close>)

lemma length_foldl:
  "7 \<le> length (sampleData ds) \<Longrightarrow>
   7 \<le> length (sampleData (foldl (\<lambda>ds c. fst (perform toNum c ds)) ds calls))"
  by (induction calls arbitrary: ds) (simp_all add: length_perform)

lemma length_after: "7 \<le> length (sampleData (after toNum calls))"
  unfolding after_def by (rule length_foldl) (simp add: initialDataService_def)

lemma maxId_contiguous:
  assumes "ids_contiguous xs" and "xs \<noteq> []"
  shows "maxId xs = int (length xs)"
proof -
  have ids: "set (map item_id xs) = {1..int (length xs)}"
    using assms(1) by (simp add: ids_contiguous_def)
  have "1 \<le> int (length xs)"
    using assms(2) by (cases xs) simp_all
  then have "Max {1..int (length xs)} = int (length xs)"
    by (intro Max_eqI) auto
  with ids show ?thesis
    unfolding maxId_def by simp
qed

lemma maxId_after:
  "maxId (sampleData (after toNum calls)) = int (length (sampleData (after toNum calls)))"
proof -
  have "sampleData (after toNum calls) \<noteq> []"
    using length_after [of toNum calls] by auto
  with ids_after show ?thesis
    by (rule maxId_contiguous)
qed

lemma synthesized_generated: "list_all synthesized (map (generatedItem ds) ks)"
  by (simp add: list_all_iff synthesized_def generatedItem_def Let_def)

lemma ToLength_number: "0 \<le> n \<Longrightarrow> \<lfloor>n\<rfloor> \<le> 4294967295 \<Longrightarrow> ToLength toNum (JNum n) = nat \<lfloor>n\<rfloor>"
  by (simp add: min_def)

lemma capped_large: "4294967296 \<le> m \<Longrightarrow> 4294967295 < nat (min m 9007199254740991)"
  by simp

lemma ToLength_large: "4294967296 \<le> n \<Longrightarrow> maxArrayLength < ToLength toNum (JNum n)"
proof -
  assume "4294967296 \<le> n"
  then have "4294967296 \<le> \<lfloor>n\<rfloor>"
    by (simp add: le_floor_iff)
  then have "4294967295 < nat (min \<lfloor>n\<rfloor> 9007199254740991)"
    by (rule capped_large)
  then show ?thesis
    by (simp only: maxArrayLength_def ToLength.simps)
qed

lemma addMoreData_number:
  assumes "1 \<le> count" and "int (length (sampleData ds)) + \<lfloor>count\<rfloor> \<le> int maxArrayLength"
  shows "addMoreData toNum (JNum count) ds =
    (ds\<lparr>sampleData := sampleData ds @ map (generatedItem ds) [0..<nat \<lfloor>count\<rfloor>]\<rparr>,
     Inr [Next (sampleData ds @ map (generatedItem ds) [0..<nat \<lfloor>count\<rfloor>])])"
proof -
  have small: "\<lfloor>count\<rfloor> \<le> 4294967295"
    using assms(2) unfolding maxArrayLength_def by linarith
  have len: "ToLength toNum (JNum count) = nat \<lfloor>count\<rfloor>"
    using assms(1) small by (simp add: ToLength_number)
  have "ToLength toNum (JNum count) \<le> maxArrayLength"
    using small unfolding len maxArrayLength_def by linarith
  then show ?thesis
    using addMoreData_fits [of toNum "JNum count" ds]
    by (simp add: len del: ToLength.simps)
qed

text \<open>
  C4 (as amended). In every state of the DataService and for every count of at least 1
  with which the new list fits an array (length + count at most \<open>2^32 - 1\<close>), addMoreData
  makes the list longer by count rounded down, which is exactly count for a whole number,
  and leaves the old items in place; the new items have the ids length + 1 to
  length + count rounded down, each with the name and the description made from its id;
  the observable carries the whole new list. In every state the service can reach from
  its start the length is the greatest id, so there the new ids start at greatest id + 1.
  For a count of \<open>2^32\<close> or more addMoreData throws a RangeError and leaves the list as it
  was.
\<close>

theorem addMoreData_appends:
  assumes "1 \<le> count"
    and "int (length (sampleData ds)) + \<lfloor>count\<rfloor> \<le> int maxArrayLength"
  shows
    "length (sampleData (fst (addMoreData toNum (JNum count) ds)))
       = length (sampleData ds) + nat \<lfloor>count\<rfloor>
     \<and> (count = of_int k \<longrightarrow>
          length (sampleData (fst (addMoreData toNum (JNum count) ds)))
          = length (sampleData ds) + nat k)
     \<and> take (length (sampleData ds)) (sampleData (fst (addMoreData toNum (JNum count) ds)))
       = sampleData ds
     \<and> map item_id (drop (length (sampleData ds))
           (sampleData (fst (addMoreData toNum (JNum count) ds))))
       = [int (length (sampleData ds)) + 1..int (length (sampleData ds)) + \<lfloor>count\<rfloor>]
     \<and> list_all synthesized (drop (length (sampleData ds))
           (sampleData (fst (addMoreData toNum (JNum count) ds))))
     \<and> snd (addMoreData toNum (JNum count) ds)
       = Inr [Next (sampleData (fst (addMoreData toNum (JNum count) ds)))]
     \<and> (int (length (sampleData (after toNum calls))) + \<lfloor>count\<rfloor> \<le> int maxArrayLength \<longrightarrow>
          map item_id (drop (length (sampleData (after toNum calls)))
            (sampleData (fst (addMoreData toNum (JNum count) (after toNum calls)))))
          = [maxId (sampleData (after toNum calls)) + 1
             ..maxId (sampleData (after toNum calls)) + \<lfloor>count\<rfloor>])
     \<and> (4294967296 \<le> large \<longrightarrow>
          addMoreData toNum (JNum large) ds = (ds, Inl RangeError))"
proof -
  have pos: "1 \<le> \<lfloor>count\<rfloor>"
    using assms(1) by (simp add: le_floor_iff)
  then have n: "int (nat \<lfloor>count\<rfloor>) = \<lfloor>count\<rfloor>"
    by simp
  have new_ids: "map item_id (drop (length (sampleData d))
           (sampleData (fst (addMoreData toNum (JNum count) d))))
       = [int (length (sampleData d)) + 1..int (length (sampleData d)) + \<lfloor>count\<rfloor>]"
    if "int (length (sampleData d)) + \<lfloor>count\<rfloor> \<le> int maxArrayLength" for d
    by (simp add: addMoreData_number [OF assms(1) that] generated_ids map_index_upto n
        del: map_map)
  have here: "length (sampleData (fst (addMoreData toNum (JNum count) ds)))
       = length (sampleData ds) + nat \<lfloor>count\<rfloor>
     \<and> take (length (sampleData ds)) (sampleData (fst (addMoreData toNum (JNum count) ds)))
       = sampleData ds
     \<and> list_all synthesized (drop (length (sampleData ds))
           (sampleData (fst (addMoreData toNum (JNum count) ds))))
     \<and> snd (addMoreData toNum (JNum count) ds)
       = Inr [Next (sampleData (fst (addMoreData toNum (JNum count) ds)))]"
    by (simp add: addMoreData_number [OF assms] synthesized_generated)
  have whole: "length (sampleData (fst (addMoreData toNum (JNum count) ds)))
          = length (sampleData ds) + nat k" if "count = of_int k"
    using here that by simp
  have throws: "addMoreData toNum (JNum large) ds = (ds, Inl RangeError)"
    if "4294967296 \<le> large"
    using addMoreData_throws [of toNum "JNum large" ds] ToLength_large [OF that] by simp
  show ?thesis
    using here whole throws new_ids [OF assms(2)] new_ids [of "after toNum calls"]
    by (simp add: maxId_after)
qed

theorem addMoreData_appends_witness:
  "(1::rat) \<le> 3
   \<and> int (length (sampleData initialDataService)) + \<lfloor>3::rat\<rfloor> \<le> int maxArrayLength
   \<and> sampleData (fst (addMoreData (\<lambda>v. 0) (JNum 3) initialDataService))
     = sampleData initialDataService @
       [\<lparr>item_id = 8, name = ''Item 8'', description = ''Description for item 8''\<rparr>,
        \<lparr>item_id = 9, name = ''Item 9'', description = ''Description for item 9''\<rparr>,
        \<lparr>item_id = 10, name = ''Item 10'', description = ''Description for item 10''\<rparr>]
   \<and> map item_id (drop 7 (sampleData (fst (addMoreData (\<lambda>v. 0) (JNum 3) (after (\<lambda>v. 0) [])))))
     = [8, 9, 10]
   \<and> addMoreData (\<lambda>v. 0) (JNum 5000000000) initialDataService
     = (initialDataService, Inl RangeError)"
  using addMoreData_appends [of 3 initialDataService "\<lambda>v. 0" 3 "[]" 5000000000]
  by (simp add: addMoreData_def Array_from_def maxArrayLength_def after_def
      initialDataService_def generatedItem_def numToString_def digits.simps Let_def upt_rec)

text \<open>
  C4 as stated fails: with the count \<open>2^32\<close> addMoreData throws a RangeError and the
  list keeps its seven items; with the count 5/2 the list grows by two items, to nine.
\<close>

theorem addMoreData_count_limits:
  "addMoreData (\<lambda>v. 0) (JNum 4294967296) initialDataService
     = (initialDataService, Inl RangeError)
   \<and> length (sampleData (fst (addMoreData (\<lambda>v. 0) (JNum 4294967296) initialDataService))) = 7
   \<and> length (sampleData (fst (addMoreData (\<lambda>v. 0) (JNum (5 / 2)) initialDataService))) = 9
   \<and> rat_of_nat (length (sampleData (fst (addMoreData (\<lambda>v. 0) (JNum (5 / 2))
        initialDataService)))) \<noteq> 7 + 5 / 2"
proof -
  have half: "\<lfloor>5 / 2 :: rat\<rfloor> = 2"
    by (rule floor_unique) simp_all
  show ?thesis
    by (simp add: addMoreData_def Array_from_def maxArrayLength_def initialDataService_def
        Let_def half)
qed

text \<open>
  C8 (as amended). getSampleData returns the list the service holds at the time of the
  call and leaves the service as it is. On a new service, and right after resetData, that
  list is the seven baseline items with the ids 1 to 7.
\<close>

theorem getSampleData_current:
  "getSampleData ds = (ds, [Next (sampleData ds)])
   \<and> snd (getSampleData initialDataService) = [Next (sampleData initialDataService)]
   \<and> map item_id (sampleData initialDataService) = [1, 2, 3, 4, 5, 6, 7]
   \<and> snd (getSampleData (fst (resetData ds))) = [Next (sampleData initialDataService)]"
  by (simp add: getSampleData_def resetData_def initialDataService_def rx_of_def rx_delay_def
      Let_def)

text \<open>
  C8 as stated fails: after one item has been added, getSampleData returns eight items,
  the added one among them.
\<close>

theorem getSampleData_after_addition:
  "snd (getSampleData (fst (addMoreData (\<lambda>v. 0) (JNum 1) initialDataService)))
     = [Next (sampleData initialDataService @
         [\<lparr>item_id = 8, name = ''Item 8'', description = ''Description for item 8''\<rparr>])]
   \<and> snd (getSampleData (fst (addMoreData (\<lambda>v. 0) (JNum 1) initialDataService)))
     \<noteq> [Next (sampleData initialDataService)]"
  by (simp add: getSampleData_def addMoreData_def Array_from_def maxArrayLength_def
      initialDataService_def generatedItem_def numToString_def digits.simps rx_of_def
      rx_delay_def Let_def)

text \<open>
  C10. The ids of a new service are 1 to 7; every call (getSampleData, addCustomItem,
  addMoreData, resetData) that starts from a list whose ids are 1 to its length, in order,
  ends with such a list; so after every sequence of calls the ids are exactly 1 to the
  length of the list, they are distinct, and the greatest id is the length. The id that
  addCustomItem gives, length + 1, is then the greatest id + 1.
\<close>

theorem ids_invariant:
  "ids_contiguous (sampleData initialDataService)
   \<and> (ids_contiguous (sampleData ds) \<longrightarrow>
        ids_contiguous (sampleData (fst (perform toNum c ds))))
   \<and> ids_contiguous (sampleData (after toNum calls))
   \<and> map item_id (sampleData (after toNum calls)) = [1..int (length (sampleData (after toNum calls)))]
   \<and> distinct (map item_id (sampleData (after toNum calls)))
   \<and> maxId (sampleData (after toNum calls)) = int (length (sampleData (after toNum calls)))
   \<and> item_id (last (sampleData (fst (addCustomItem nm descr (after toNum calls)))))
     = maxId (sampleData (after toNum calls)) + 1"
proof -
  have "map item_id (sampleData (after toNum calls))
      = [1..int (length (sampleData (after toNum calls)))]"
    using ids_after [of toNum calls] by (simp add: ids_contiguous_def)
  moreover from this have "distinct (map item_id (sampleData (after toNum calls)))"
    by simp
  moreover have "item_id (last (sampleData (fst (addCustomItem nm descr (after toNum calls)))))
      = int (length (sampleData (after toNum calls))) + 1"
    by (simp add: addCustomItem_def Let_def)
  ultimately show ?thesis
    using ids_initial ids_perform [of ds toNum c] ids_after [of toNum calls]
    by (simp add: maxId_after)
qed

theorem ids_invariant_witness:
  "ids_contiguous (sampleData initialDataService)
   \<and> map item_id (sampleData (fst (perform (\<lambda>v. 0) (AddMoreData (JNum 2)) initialDataService)))
     = [1, 2, 3, 4, 5, 6, 7, 8, 9]
   \<and> ids_contiguous (sampleData (fst (perform (\<lambda>v. 0) (AddMoreData (JNum 2)) initialDataService)))"
  using ids_invariant [of initialDataService "\<lambda>v. 0" "AddMoreData (JNum 2)" "[]" "''a''" "''b''"]
  by (simp add: addMoreData_def Array_from_def maxArrayLength_def initialDataService_def
      generatedItem_def Let_def upt_rec)

section \<open>Properties of the StoreBridgeService\<close>

subsection \<open>Sanitizing\<close>

lemma sanitizeData_array:
  "sanitizeData (JArr items) = JArr (map (\<lambda>item. JObj (spread item)) items)"
  by (simp add: sanitizeData_def)

lemma sanitizeData_objects: "sanitizeData (JArr (map JObj objs)) = JArr (map JObj objs)"
  by (simp add: sanitizeData_array o_def)

lemma sanitizeData_items: "sanitizeData (JArr (map itemObject xs)) = JArr (map itemObject xs)"
  by (simp add: sanitizeData_array o_def itemObject_def)

lemma sendCurrentData_once:
  "sendCurrentData state = [dispatchStoreEvent DATA_EVENT (sanitizeData (JArr (data state)))]"
  by (simp add: sendCurrentData_def select_def selectAppData_def)

lemma type_is_string:
  "getProp ev ''type'' = JStr t \<Longrightarrow> t \<noteq> [] \<Longrightarrow> truthy ev \<and> truthy (getProp ev ''type'')"
  by (cases ev) simp_all

text \<open>
  C1 (as amended). The payload of the data message that answers a request, and of every
  data message the broadcast posts, is made by sanitizeData, which copies each item with
  the object spread and removes nothing: an item that is an object comes out with exactly
  the fields and values it had. The items the DataService makes have the fields id, name
  and description and no other, so their copies have exactly these.
\<close>

theorem sanitizeData_copies_items:
  "sanitizeData (JArr items) = JArr (map (\<lambda>item. JObj (spread item)) items)
   \<and> sanitizeData (JArr (map JObj objs)) = JArr (map JObj objs)
   \<and> sanitizeData (JArr (map itemObject xs)) = JArr (map itemObject xs)
   \<and> map fst (spread (itemObject x)) = [''id'', ''name'', ''description'']
   \<and> sendCurrentData state = [dispatchStoreEvent DATA_EVENT (sanitizeData (JArr (data state)))]
   \<and> dataUpdates stringify states =
       map (\<lambda>d. dispatchStoreEvent DATA_EVENT (sanitizeData (JArr d)))
         (dataUpdatesFor stringify states)"
  by (simp add: sanitizeData_array sanitizeData_objects sanitizeData_items sendCurrentData_once
      dataUpdates_def itemObject_def)

text \<open>
  C1 as stated fails: an item of the store with a fourth field, \<open>token\<close>, is posted with
  that field, by sanitizeData and so by the answer to a data request.
\<close>

theorem sanitizeData_keeps_token:
  "sanitizeData (JArr [JObj [(''id'', JNum 1), (''name'', JStr ''Item 1''),
       (''description'', JStr ''Description for item 1''), (''token'', JStr ''secret'')]])
     = JArr [JObj [(''id'', JNum 1), (''name'', JStr ''Item 1''),
       (''description'', JStr ''Description for item 1''), (''token'', JStr ''secret'')]]
   \<and> snd (onmessage (\<lambda>v. 0) (JObj [(''type'', JStr ''APP_STORE_REQUEST_DATA'')])
        (initialAppState\<lparr>data := [JObj [(''id'', JNum 1), (''name'', JStr ''Item 1''),
           (''description'', JStr ''Description for item 1''), (''token'', JStr ''secret'')]]\<rparr>)
        initialDataService)
     = [JObj [(''type'', JStr ''APP_STORE_DATA_UPDATE''),
              (''payload'', JArr [JObj [(''id'', JNum 1), (''name'', JStr ''Item 1''),
                 (''description'', JStr ''Description for item 1''),
                 (''token'', JStr ''secret'')]])]]"
  by (simp add: sanitizeData_array onmessage_def sendCurrentData_once event_names
      dispatchStoreEvent_def initialAppState_def Let_def)

subsection \<open>Requests\<close>

lemma onmessage_request_data:
  "getProp ev ''type'' = JStr REQUEST_DATA_EVENT \<Longrightarrow>
   onmessage toNum ev state ds = (ds, sendCurrentData state)"
  using type_is_string [of ev REQUEST_DATA_EVENT]
  by (simp add: onmessage_def Let_def event_names)

text \<open>
  C6. A message of type REQUEST_DATA makes the handler read the state of the store once
  and post exactly one message: a DATA_UPDATE whose payload is the sanitized item list of
  that state, which is the item list itself when its items are objects. Nothing else is
  posted and the DataService is not touched.
\<close>

theorem request_data_one_response:
  assumes "getProp ev ''type'' = JStr REQUEST_DATA_EVENT"
  shows
    "onmessage toNum ev state ds
       = (ds, [dispatchStoreEvent DATA_EVENT (sanitizeData (JArr (data state)))])
     \<and> length (snd (onmessage toNum ev state ds)) = 1
     \<and> (data state = map itemObject xs \<longrightarrow>
          snd (onmessage toNum ev state ds) = [dispatchStoreEvent DATA_EVENT (JArr (data state))])
     \<and> (data state = map JObj objs \<longrightarrow>
          snd (onmessage toNum ev state ds) = [dispatchStoreEvent DATA_EVENT (JArr (data state))])"
  using assms
  by (simp add: onmessage_request_data sendCurrentData_once sanitizeData_objects sanitizeData_items)

theorem request_data_one_response_witness:
  "getProp (JObj [(''type'', JStr ''APP_STORE_REQUEST_DATA'')]) ''type'' = JStr REQUEST_DATA_EVENT
   \<and> data (initialAppState\<lparr>data := map itemObject (sampleData initialDataService)\<rparr>)
       = map itemObject (sampleData initialDataService)
   \<and> onmessage (\<lambda>v. 0) (JObj [(''type'', JStr ''APP_STORE_REQUEST_DATA'')])
        (initialAppState\<lparr>data := map itemObject (sampleData initialDataService)\<rparr>)
        initialDataService
     = (initialDataService,
        [JObj [(''type'', JStr ''APP_STORE_DATA_UPDATE''),
               (''payload'', JArr (map itemObject (sampleData initialDataService)))]])"
  using request_data_one_response [of "JObj [(''type'', JStr ''APP_STORE_REQUEST_DATA'')]"
      "\<lambda>v. 0" "initialAppState\<lparr>data := map itemObject (sampleData initialDataService)\<rparr>"
      initialDataService "sampleData initialDataService" "[]"]
  by (simp add: event_names dispatchStoreEvent_def sanitizeData_items)











subsection \<open>Messages that are not of the protocol\<close>

lemma listener_ignores:
  assumes "getProp ev ''type'' \<noteq> JStr STORE_EVENTS_DATA"
    and "getProp ev ''type'' \<noteq> JStr STORE_EVENTS_LOADING"
  shows "handleBroadcastMessage ev s = s"
  using assms by (simp add: handleBroadcastMessage_def Let_def)

lemma bridge_ignores:
  assumes "getProp ev ''type'' \<noteq> JStr REQUEST_DATA_EVENT"
    and "getProp ev ''type'' \<noteq> JStr REQUEST_LOADING_EVENT"
    and "getProp ev ''type'' \<noteq> JStr ADD_MORE_DATA_EVENT"
    and "getProp ev ''type'' \<noteq> JStr RESET_DATA_EVENT"
  shows "onmessage toNum ev state ds = (ds, [])"
  using assms by (simp add: onmessage_def Let_def)

text \<open>
  C9. A message without a type, and a message whose type is none of the six types of the
  protocol, is ignored by both receivers: the state of the React component is what it
  was, and the bridge posts nothing and leaves the DataService as it was (the handler has
  no access to the store other than reading it).
\<close>

theorem unknown_messages_ignored:
  "(getProp ev ''type'' = JUndefined \<longrightarrow>
      handleBroadcastMessage ev s = s \<and> onmessage toNum ev state ds = (ds, []))
   \<and> (getProp ev ''type'' \<notin> set (map JStr catalogue) \<longrightarrow>
      handleBroadcastMessage ev s = s \<and> onmessage toNum ev state ds = (ds, []))"
proof -
  have "handleBroadcastMessage ev s = s \<and> onmessage toNum ev state ds = (ds, [])"
    if "getProp ev ''type'' \<notin> set (map JStr catalogue)"
    using that listener_ignores [of ev s] bridge_ignores [of ev toNum state ds]
    by (simp add: catalogue_def event_names)
  moreover have "getProp ev ''type'' \<notin> set (map JStr catalogue)"
    if "getProp ev ''type'' = JUndefined"
    using that by (simp add: catalogue_def)
  ultimately show ?thesis by blast
qed

theorem unknown_messages_ignored_witness:
  "getProp (JObj [(''payload'', JNum 3)]) ''type'' = JUndefined
   \<and> handleBroadcastMessage (JObj [(''payload'', JNum 3)])
        \<lparr>app_data = JArr [], app_loading = JBool True, storeAvailable = False,
         requestAttempted = True, requestTimeout = None, addItemCount = JNum 3\<rparr>
      = \<lparr>app_data = JArr [], app_loading = JBool True, storeAvailable = False,
         requestAttempted = True, requestTimeout = None, addItemCount = JNum 3\<rparr>
   \<and> onmessage (\<lambda>v. 0) (JObj [(''payload'', JNum 3)]) initialAppState initialDataService
      = (initialDataService, [])
   \<and> getProp (JObj [(''type'', JStr ''APP_STORE_ERROR_UPDATE''), (''payload'', JNum 3)]) ''type''
        \<notin> set (map JStr catalogue)
   \<and> onmessage (\<lambda>v. 0) (JObj [(''type'', JStr ''APP_STORE_ERROR_UPDATE''), (''payload'', JNum 3)])
        initialAppState initialDataService
      = (initialDataService, [])"
  using unknown_messages_ignored [of "JObj [(''payload'', JNum 3)]"
      "\<lparr>app_data = JArr [], app_loading = JBool True, storeAvailable = False,
         requestAttempted = True, requestTimeout = None, addItemCount = JNum 3\<rparr>"
      "\<lambda>v. 0" initialAppState initialDataService]
    unknown_messages_ignored
      [of "JObj [(''type'', JStr ''APP_STORE_ERROR_UPDATE''), (''payload'', JNum 3)]"
      "\<lparr>app_data = JArr [], app_loading = JBool True, storeAvailable = False,
         requestAttempted = True, requestTimeout = None, addItemCount = JNum 3\<rparr>"
      "\<lambda>v. 0" initialAppState initialDataService]
  by (simp add: catalogue_def event_names)

subsection \<open>The listener count\<close>

lemma counted_initial: "counted initialStoreBridgeService"
  by (simp add: counted_def initialStoreBridgeService_def)

lemma counted_activate: "counted b \<Longrightarrow> counted (activateBroadcasting b)"
  by (auto simp: counted_def activateBroadcasting_def startBroadcastingStoreUpdates_def
      cleanupSubscriptions_def Let_def)

lemma counted_deactivate: "counted b \<Longrightarrow> counted (deactivateBroadcasting b)"
  by (auto simp: counted_def deactivateBroadcasting_def stopBroadcastingStoreUpdates_def
      cleanupSubscriptions_def Let_def)

lemma counted_first: "activeListeners b = 0 \<Longrightarrow> counted (applyActivation a b)"
  by (cases a)
    (simp_all add: counted_def activateBroadcasting_def deactivateBroadcasting_def
      startBroadcastingStoreUpdates_def stopBroadcastingStoreUpdates_def
      cleanupSubscriptions_def Let_def)

lemma counted_bridgeFrom: "counted b \<Longrightarrow> counted (bridgeFrom b acts)"
  unfolding bridgeFrom_def
proof (induction acts arbitrary: b)
  case Nil
  then show ?case by simp
next
  case (Cons a acts)
  have "counted (applyActivation a b)"
    using Cons.prems by (cases a) (simp_all add: counted_activate counted_deactivate)
  then show ?case
    using Cons.IH by simp
qed

lemma counted_bridgeAfter: "counted (bridgeAfter acts)"
  unfolding bridgeAfter_def by (rule counted_bridgeFrom [OF counted_initial])

lemma counted_bridgeFrom_zero:
  assumes "activeListeners b = 0"
  shows "counted (bridgeFrom b (a # acts))"
proof -
  have "bridgeFrom b (a # acts) = bridgeFrom (applyActivation a b) acts"
    by (simp add: bridgeFrom_def)
  with counted_bridgeFrom [OF counted_first [OF assms]] show ?thesis
    by simp
qed

lemma activate_count: "activeListeners (activateBroadcasting b) = activeListeners b + 1"
  by (simp add: activateBroadcasting_def startBroadcastingStoreUpdates_def
      cleanupSubscriptions_def Let_def)

lemma deactivate_count:
  "activeListeners (deactivateBroadcasting b) = max 0 (activeListeners b - 1)"
  by (simp add: deactivateBroadcasting_def stopBroadcastingStoreUpdates_def
      cleanupSubscriptions_def Let_def)

lemma activate_first: "activeListeners b = 0 \<Longrightarrow> broadcasting (activateBroadcasting b)"
  by (simp add: activateBroadcasting_def startBroadcastingStoreUpdates_def
      cleanupSubscriptions_def Let_def broadcasting_def)

lemma deactivate_last: "activeListeners b \<le> 1 \<Longrightarrow> silent (deactivateBroadcasting b)"
  by (simp add: deactivateBroadcasting_def stopBroadcastingStoreUpdates_def
      cleanupSubscriptions_def Let_def silent_def)

lemma counted_broadcasting: "counted b \<Longrightarrow> broadcasting b = (0 < activeListeners b)"
  by (auto simp: counted_def broadcasting_def)

lemma counted_silent: "counted b \<Longrightarrow> silent b = (activeListeners b = 0)"
  by (auto simp: counted_def silent_def)

lemma three_then_two:
  "broadcasting (bridgeAfter [Activate, Activate, Activate, Deactivate, Deactivate])"
  by (simp add: bridgeAfter_def bridgeFrom_def initialStoreBridgeService_def
      activateBroadcasting_def deactivateBroadcasting_def startBroadcastingStoreUpdates_def
      stopBroadcastingStoreUpdates_def cleanupSubscriptions_def Let_def broadcasting_def)

lemma three_then_three:
  "silent (bridgeAfter [Activate, Activate, Activate, Deactivate, Deactivate, Deactivate])"
  by (simp add: bridgeAfter_def bridgeFrom_def initialStoreBridgeService_def
      activateBroadcasting_def deactivateBroadcasting_def startBroadcastingStoreUpdates_def
      stopBroadcastingStoreUpdates_def cleanupSubscriptions_def Let_def silent_def)

text \<open>
  C3. activateBroadcasting adds one to the count and, when the count was 0, starts the
  broadcast; deactivateBroadcasting takes one off the count, never below 0, and when the
  count comes to 0 it stops the broadcast. After every sequence of the two calls on a new
  service the count is not negative, the broadcast is on exactly when the count is above
  0, and all subscriptions are gone exactly when it is 0. The same holds after at least
  one call from any state whose count is 0. Three activations and two deactivations leave
  the broadcast on; one more deactivation stops it.
\<close>

theorem activation_counter:
  "activeListeners (activateBroadcasting b) = activeListeners b + 1
   \<and> (activeListeners b = 0 \<longrightarrow> broadcasting (activateBroadcasting b))
   \<and> activeListeners (deactivateBroadcasting b) = max 0 (activeListeners b - 1)
   \<and> (activeListeners b \<le> 1 \<longrightarrow> silent (deactivateBroadcasting b))
   \<and> 0 \<le> activeListeners (bridgeAfter acts)
   \<and> broadcasting (bridgeAfter acts) = (0 < activeListeners (bridgeAfter acts))
   \<and> silent (bridgeAfter acts) = (activeListeners (bridgeAfter acts) = 0)
   \<and> (activeListeners b = 0 \<longrightarrow>
        0 \<le> activeListeners (bridgeFrom b (a # acts))
        \<and> broadcasting (bridgeFrom b (a # acts)) = (0 < activeListeners (bridgeFrom b (a # acts))))
   \<and> broadcasting (bridgeAfter [Activate, Activate, Activate, Deactivate, Deactivate])
   \<and> silent (bridgeAfter [Activate, Activate, Activate, Deactivate, Deactivate, Deactivate])"
proof -
  have inv: "counted (bridgeAfter acts)"
    by (rule counted_bridgeAfter)
  then have nonneg: "0 \<le> activeListeners (bridgeAfter acts)"
    by (simp add: counted_def)
  have from_zero: "0 \<le> activeListeners (bridgeFrom b (a # acts))
      \<and> broadcasting (bridgeFrom b (a # acts)) = (0 < activeListeners (bridgeFrom b (a # acts)))"
    if "activeListeners b = 0"
    using counted_bridgeFrom_zero [OF that, of a acts]
    by (simp add: counted_broadcasting) (simp add: counted_def)
  show ?thesis
    using nonneg counted_broadcasting [OF inv] counted_silent [OF inv] from_zero
      activate_count deactivate_count activate_first deactivate_last
      three_then_two three_then_three
    by blast
qed

theorem activation_counter_witness:
  "activeListeners initialStoreBridgeService = 0
   \<and> broadcasting (activateBroadcasting initialStoreBridgeService)
   \<and> activeListeners (activateBroadcasting initialStoreBridgeService) \<le> 1
   \<and> silent (deactivateBroadcasting (activateBroadcasting initialStoreBridgeService))
   \<and> activeListeners (deactivateBroadcasting initialStoreBridgeService) = 0
   \<and> broadcasting (bridgeFrom initialStoreBridgeService [Activate, Activate, Deactivate])"
  using activation_counter [of initialStoreBridgeService "[Activate, Deactivate]" Activate]
    activation_counter [of "activateBroadcasting initialStoreBridgeService" "[]" Activate]
  by (simp add: initialStoreBridgeService_def bridgeFrom_def activateBroadcasting_def
      deactivateBroadcasting_def startBroadcastingStoreUpdates_def
      stopBroadcastingStoreUpdates_def cleanupSubscriptions_def Let_def)

subsection \<open>The broadcast\<close>

lemma successively_distinctFrom:
  "successively (\<lambda>p c. \<not> comparator p c) (x # distinctFrom comparator x xs)"
  by (induction xs arbitrary: x) simp_all

lemma successively_distinctUntilChanged:
  "successively (\<lambda>p c. \<not> comparator p c) (distinctUntilChanged comparator xs)"
  by (cases xs) (simp_all add: successively_distinctFrom)

lemma distinct_adj_by_key:
  "distinct_adj (distinctUntilChanged (\<lambda>p c. key p = key c) xs)"
  unfolding distinct_adj_def
  by (rule successively_mono [OF successively_distinctUntilChanged]) auto

lemma distinctFrom_repeat:
  "key s' = key s \<Longrightarrow>
   distinctFrom (\<lambda>p c. key p = key c) x (pre @ s # s' # post)
   = distinctFrom (\<lambda>p c. key p = key c) x (pre @ s # post)"
  by (induction pre arbitrary: x) simp_all

lemma distinctUntilChanged_repeat:
  "key s' = key s \<Longrightarrow>
   distinctUntilChanged (\<lambda>p c. key p = key c) (pre @ s # s' # post)
   = distinctUntilChanged (\<lambda>p c. key p = key c) (pre @ s # post)"
  by (cases pre) (simp_all add: distinctFrom_repeat)

text \<open>
  C7. While a subscription of the broadcast lives, the item lists for which it posts a
  DATA_UPDATE, taken in order, never have the same list twice in a row, and the same holds
  of the loading flags of the LOADING_UPDATE messages (and of these messages themselves).
  A state of the store that has the item list of the state before it adds no DATA_UPDATE
  to what is posted, and a state that has the loading flag of the state before it adds no
  LOADING_UPDATE.
\<close>

theorem broadcast_suppresses_repeats:
  "distinct_adj (dataUpdatesFor stringify states)
   \<and> dataUpdates stringify states
     = map (\<lambda>d. dispatchStoreEvent DATA_EVENT (sanitizeData (JArr d)))
         (dataUpdatesFor stringify states)
   \<and> distinct_adj (loadingUpdatesFor states)
   \<and> loadingUpdates states
     = map (\<lambda>l. dispatchStoreEvent LOADING_EVENT (JBool l)) (loadingUpdatesFor states)
   \<and> distinct_adj (loadingUpdates states)
   \<and> (data s' = data s \<longrightarrow>
        dataUpdates stringify (before @ s # s' # later)
        = dataUpdates stringify (before @ s # later))
   \<and> (loading s' = loading s \<longrightarrow>
        loadingUpdates (before @ s # s' # later) = loadingUpdates (before @ s # later))"
proof -
  have a: "distinct_adj (dataUpdatesFor stringify states)"
    unfolding dataUpdatesFor_def by (rule distinct_adj_by_key [of "\<lambda>d. stringify (JArr d)"])
  have b: "distinct_adj (loadingUpdatesFor states)"
    unfolding loadingUpdatesFor_def by (rule distinct_adj_by_key [of "\<lambda>l. l"])
  have c: "distinct_adj (loadingUpdates states)"
    using b unfolding loadingUpdates_def
    by (simp add: distinct_adj_def successively_map dispatchStoreEvent_def)
  have d: "dataUpdates stringify (before @ s # s' # later)
      = dataUpdates stringify (before @ s # later)"
    if "data s' = data s"
    using that distinctUntilChanged_repeat [of "\<lambda>d. stringify (JArr d)" "data s'" "data s"
        "map selectAppData before" "map selectAppData later"]
    by (simp add: dataUpdates_def dataUpdatesFor_def select_def selectAppData_def)
  have e: "loadingUpdates (before @ s # s' # later) = loadingUpdates (before @ s # later)"
    if "loading s' = loading s"
    using that distinctUntilChanged_repeat [of "\<lambda>l. l" "loading s'" "loading s"
        "map selectAppLoading before" "map selectAppLoading later"]
    by (simp add: loadingUpdates_def loadingUpdatesFor_def select_def selectAppLoading_def)
  show ?thesis
    using a b c d e by (simp add: dataUpdates_def loadingUpdates_def)
qed

theorem broadcast_suppresses_repeats_witness:
  "data (initialAppState\<lparr>isLoaded := True\<rparr>) = data initialAppState
   \<and> loading (initialAppState\<lparr>isLoaded := True\<rparr>) = loading initialAppState
   \<and> dataUpdates (\<lambda>v. v) [initialAppState, initialAppState\<lparr>isLoaded := True\<rparr>]
     = [dispatchStoreEvent DATA_EVENT (JArr [])]
   \<and> loadingUpdates [initialAppState, initialAppState\<lparr>isLoaded := True\<rparr>]
     = [dispatchStoreEvent LOADING_EVENT (JBool False)]"
  using broadcast_suppresses_repeats [of "\<lambda>v. v" "[]" "initialAppState\<lparr>isLoaded := True\<rparr>"
      initialAppState "[]" "[]"]
  by (simp add: initialAppState_def dataUpdates_def dataUpdatesFor_def loadingUpdates_def
      loadingUpdatesFor_def select_def selectAppData_def selectAppLoading_def sanitizeData_def)

end
